theory Spec2Isabelle
  imports Main "HOL-Library.Word" "HOL-Library.Finite_Map" "HOL-Library.Stream"
    "HOL-Library.Char_ord" "HOL-Library.List_Lexorder" "HOL-Library.Multiset"
    "HOL-Library.Monad_Syntax"
begin

section \<open>memoryfs: the directory node of an in-memory file system\<close>

text \<open>
  The development embeds \<^verbatim>\<open>dir.go\<close>. A \<^verbatim>\<open>*dir\<close> owns its children, so the tree of
  nodes is a datatype and a method that mutates its receiver returns the receiver's new
  value. The two Go maps of a node are finite maps. The \<^verbatim>\<open>sync.RWMutex\<close> of a node is
  left out: in a single thread every lock is released by the call that took it and no
  call waits for a lock it holds itself. For the methods that only read the tree this is
  proved: they are embedded a second time with the mutex, and shown to return the same
  results and to leave the tree and its mutexes as they were. Every call of
  \<^verbatim>\<open>time.Now()\<close> takes the next reading of a clock, a stream of times that is threaded
  through the mutating calls.
\<close>

subsection \<open>Strings: \<^verbatim>\<open>strings.Split\<close> and \<^verbatim>\<open>strings.Join\<close>\<close>

text \<open>\<^verbatim>\<open>var separator = "/"\<close>: a single byte, never reassigned.\<close>

definition separator :: char where
  "separator = CHR ''/''"

text \<open>
  \<^verbatim>\<open>strings.Split(s, sep)\<close> for a one-byte separator: the substrings between the
  separators, in order; a string without separator (the empty string too) gives one part.
\<close>

fun Split :: "string \<Rightarrow> char \<Rightarrow> string list" where
  "Split [] sep = [[]]"
| "Split (c # cs) sep =
     (if c = sep then [] # Split cs sep
      else (case Split cs sep of [] \<Rightarrow> [[c]] | p # ps \<Rightarrow> (c # p) # ps))"

text \<open>\<^verbatim>\<open>strings.Join(parts, sep)\<close>: the parts with the separator between neighbours.\<close>

fun Join :: "string list \<Rightarrow> char \<Rightarrow> string" where
  "Join [] sep = []"
| "Join [p] sep = p"
| "Join (p # q # ps) sep = p @ sep # Join (q # ps) sep"

subsection \<open>Data\<close>

type_synonym byte = "8 word"
type_synonym time = int
type_synonym FileMode = "32 word"

text \<open>The clock behind \<^verbatim>\<open>time.Now()\<close>: the readings still to come, the next one first.\<close>

type_synonym clock = "time stream"

text \<open>
  \<^verbatim>\<open>fileinfo\<close>, with the fields of the struct literals in \<^verbatim>\<open>MkdirAll\<close> and
  \<^verbatim>\<open>WriteFile\<close>; \<^verbatim>\<open>size\<close> is an \<^verbatim>\<open>int64\<close>, \<^verbatim>\<open>mode\<close> an \<^verbatim>\<open>fs.FileMode\<close> (\<^verbatim>\<open>uint32\<close>).
\<close>

record fileinfo =
  name :: string
  size_fi :: "64 word"
  modified :: time
  isDir :: bool
  mode :: FileMode

text \<open>
  \<^verbatim>\<open>file\<close>, with the two fields \<^verbatim>\<open>WriteFile\<close> fills in. The buffer is the byte sequence
  \<^verbatim>\<open>buffer[0:len(data)]\<close>; its capacity (\<^verbatim>\<open>bufferSize\<close> at least) is not observable.
\<close>

record "file" =
  file_info :: fileinfo
  content :: "byte list"

text \<open>\<^verbatim>\<open>dir\<close>: metadata, child directories and child files, each keyed by name.\<close>

datatype dir = Dir (info: fileinfo) (dirs: "(string, dir) fmap") (files: "(string, file) fmap")

text \<open>
  The errors of \<^verbatim>\<open>io/fs\<close> the code returns, the error built by \<^verbatim>\<open>fmt.Errorf\<close> with
  \<^verbatim>\<open>%w\<close> (message and wrapped error), the end-of-stream mark of a reader, the rejection
  of a mode by \<^verbatim>\<open>overwrite\<close>, and the panic of a method call on a nil \<^verbatim>\<open>*dir\<close>.
\<close>

datatype error =
    ErrNotExist
  | ErrExist
  | ErrInvalid
  | ErrInvalidMode
  | EOF
  | NilPointerPanic
  | WrapError string error

fun Error_text :: "error \<Rightarrow> string" where
  "Error_text ErrNotExist = ''file does not exist''"
| "Error_text ErrExist = ''file already exists''"
| "Error_text ErrInvalid = ''invalid argument''"
| "Error_text ErrInvalidMode = ''invalid mode''"
| "Error_text EOF = ''EOF''"
| "Error_text NilPointerPanic =
     ''runtime error: invalid memory address or nil pointer dereference''"
| "Error_text (WrapError msg e) = msg"

text \<open>
  \<^verbatim>\<open>os.IsNotExist\<close> looks at the error itself and does not unwrap an error made with
  \<^verbatim>\<open>%w\<close>; \<^verbatim>\<open>errors.Is\<close> follows the chain of wrapped errors.
\<close>

fun IsNotExist :: "error \<Rightarrow> bool" where
  "IsNotExist ErrNotExist = True"
| "IsNotExist e = False"

fun errors_Is :: "error \<Rightarrow> error \<Rightarrow> bool" where
  "errors_Is (WrapError msg e) target = (WrapError msg e = target \<or> errors_Is e target)"
| "errors_Is e target = (e = target)"

text \<open>
  \<^verbatim>\<open>fmt.Errorf("no such file or directory: %s: %w", name, fs.ErrNotExist)\<close>
\<close>

definition Errorf_no_such_file :: "string \<Rightarrow> error" where
  "Errorf_no_such_file name' =
     WrapError (''no such file or directory: '' @ name' @ '': '' @ Error_text ErrNotExist)
       ErrNotExist"

subsection \<open>The file node and its read handle\<close>

text \<open>
  Modelled from the spec: the type of the read handle that \<^verbatim>\<open>file.openR()\<close> returns is not
  in \<^verbatim>\<open>dir.go\<close>. The spec (4.3, OpenForRead): "returns a handle presenting the node's current
  content as a sequential byte stream with its own read cursor starting at zero; the
  handle's view of content is a snapshot at open time".
\<close>

record reader =
  r_info :: fileinfo
  r_content :: "byte list"
  pos :: nat

text \<open>
  Modelled from the spec: \<^verbatim>\<open>file.openR\<close> is not in \<^verbatim>\<open>dir.go\<close>. The handle it returns
  presents the content the file has at that moment, its cursor at zero.
\<close>

definition openR :: "file \<Rightarrow> reader" where
  "openR f = \<lparr>r_info = file_info f, r_content = content f, pos = 0\<rparr>"

text \<open>
  Modelled from the spec: \<^verbatim>\<open>Stat\<close> of the read handle is not in \<^verbatim>\<open>dir.go\<close>. The spec
  (4.3, Stat): "same contract as the directory node's Stat", a snapshot of the metadata.
\<close>

definition reader_Stat :: "reader \<Rightarrow> fileinfo" where
  "reader_Stat r = r_info r"

text \<open>
  Modelled from the spec: \<^verbatim>\<open>Read\<close> of the read handle is not in \<^verbatim>\<open>dir.go\<close>. A sequential
  byte stream with a cursor: a read into a buffer of \<open>n\<close> bytes returns the next bytes,
  at most \<open>n\<close>, and moves the cursor past them; at the end of the content it returns
  the end-of-stream mark.
\<close>

definition reader_Read :: "reader \<Rightarrow> nat \<Rightarrow> (error + byte list) \<times> reader" where
  "reader_Read r n =
     (if length (r_content r) \<le> pos r then (Inl EOF, r)
      else (let chunk = take n (drop (pos r) (r_content r))
            in (Inr chunk, r\<lparr>pos := pos r + length chunk\<rparr>)))"

text \<open>
  Modelled from the spec: \<^verbatim>\<open>file.overwrite\<close> is not in \<^verbatim>\<open>dir.go\<close>. The spec (4.3,
  Overwrite): "replaces the buffer and refreshes size/modTime/mode under the node's own
  write lock; fails only if the supplied mode is invalid for the underlying metadata
  contract". Which modes are invalid is left to that contract, so the test is the
  parameter \<open>mode_ok\<close>; a rejected overwrite leaves the file as it was.
\<close>

definition overwrite ::
  "(FileMode \<Rightarrow> bool) \<Rightarrow> file \<Rightarrow> byte list \<Rightarrow> FileMode \<Rightarrow> clock \<Rightarrow> error option \<times> file \<times> clock"
where
  "overwrite mode_ok f data perm clk =
     (if \<not> mode_ok perm then (Some ErrInvalidMode, f, clk)
      else (None,
            \<lparr>file_info = (file_info f)\<lparr>size_fi := of_nat (length data),
                                      modified := shd clk, mode := perm\<rparr>,
             content = data\<rparr>,
            stl clk))"

subsection \<open>Path resolution\<close>

text \<open>
  \<^verbatim>\<open>getDir\<close>. \<^verbatim>\<open>parts[0]\<close> is \<open>hd parts\<close> and \<^verbatim>\<open>parts[1:]\<close> is \<open>tl parts\<close>:
  \<^verbatim>\<open>strings.Split\<close> never returns an empty slice.
\<close>

function getDir :: "dir \<Rightarrow> string \<Rightarrow> error + dir" where
  "getDir d nm =
     (if nm = [] then Inr d
      else (let parts = Split nm separator
            in (case fmlookup (dirs d) (hd parts) of
                  Some f \<Rightarrow> getDir f (Join (tl parts) separator)
                | None \<Rightarrow> Inl ErrNotExist)))"
  by pat_completeness auto

text \<open>\<^verbatim>\<open>getFile\<close>\<close>

function getFile :: "dir \<Rightarrow> string \<Rightarrow> error + file" where
  "getFile d nm =
     (let parts = Split nm separator
      in if length parts = 1 then
           (case fmlookup (files d) nm of
              Some f \<Rightarrow> Inr f
            | None \<Rightarrow> Inl ErrNotExist)
         else (case getDir d (hd parts) of
                 Inl err \<Rightarrow> Inl err
               | Inr sub \<Rightarrow> getFile sub (Join (tl parts) separator)))"
  by pat_completeness auto

text \<open>
  What \<^verbatim>\<open>Open\<close> returns as an \<^verbatim>\<open>fs.File\<close>: the read handle of a file, or a directory
  node itself.
\<close>

datatype handle = FileHandle reader | DirHandle dir

text \<open>\<^verbatim>\<open>Open\<close>\<close>

definition Open :: "dir \<Rightarrow> string \<Rightarrow> error + handle" where
  "Open d nm =
     (if nm = [] \<or> nm = ''.'' then Inr (DirHandle d)
      else (case getFile d nm of
              Inr f \<Rightarrow> Inr (FileHandle (openR f))
            | Inl err \<Rightarrow>
                if \<not> IsNotExist err then Inl err
                else (case getDir d nm of
                        Inr f \<Rightarrow> Inr (DirHandle f)
                      | Inl err' \<Rightarrow>
                          if \<not> IsNotExist err' then Inl err'
                          else Inl (Errorf_no_such_file nm))))"

text \<open>\<^verbatim>\<open>Stat\<close>, \<^verbatim>\<open>Read\<close> and \<^verbatim>\<open>Close\<close> of a directory node.\<close>

definition Stat :: "dir \<Rightarrow> error + fileinfo" where
  "Stat d = Inr (info d)"

definition Read :: "dir \<Rightarrow> nat \<Rightarrow> nat \<times> error option" where
  "Read f n = (0, Some ErrInvalid)"

definition Close :: "dir \<Rightarrow> error option" where
  "Close f = None"

subsection \<open>Listing a directory\<close>

text \<open>
  \<^verbatim>\<open>for _, v := range m\<close>: Go visits the entries of a map once each, in an order it
  does not fix; here the order is that of the keys.
\<close>

definition range_values :: "(string, 'v) fmap \<Rightarrow> 'v list" where
  "range_values m = map (\<lambda>k. the (fmlookup m k)) (sorted_list_of_fset (fmdom m))"

text \<open>
  \<^verbatim>\<open>sort.Slice(entries, func(i, j int) bool { return entries[i].Name() < entries[j].Name() })\<close>:
  the entries in ascending order of their names, strings compared byte by byte. Go does
  not fix the order of entries with equal names; here they keep their order.
\<close>

definition sort_Slice_by_Name :: "fileinfo list \<Rightarrow> fileinfo list" where
  "sort_Slice_by_Name entries = sort_key name entries"

text \<open>\<^verbatim>\<open>ReadDir\<close>\<close>

function ReadDir :: "dir \<Rightarrow> string \<Rightarrow> error + fileinfo list" where
  "ReadDir d nm =
     (if nm = [] then
        Inr (sort_Slice_by_Name
               (map (\<lambda>f. reader_Stat (openR f)) (range_values (files d)) @
                map info (range_values (dirs d))))
      else (let parts = Split nm separator
            in (case fmlookup (dirs d) (hd parts) of
                  None \<Rightarrow> Inl ErrNotExist
                | Some dir' \<Rightarrow> ReadDir dir' (Join (tl parts) separator))))"
  by pat_completeness auto

subsection \<open>Creating directories and writing files\<close>

text \<open>
  \<^verbatim>\<open>MkdirAll\<close>. The result is the error (\<open>None\<close> for \<^verbatim>\<open>nil\<close>), the node after the call
  and the clock after the call. The child the recursive call works on is stored back
  under its key.
\<close>

function MkdirAll :: "dir \<Rightarrow> string \<Rightarrow> FileMode \<Rightarrow> clock \<Rightarrow> error option \<times> dir \<times> clock" where
  "MkdirAll f path perm clk =
     (let parts = Split path separator
      in if fmlookup (files f) (hd parts) \<noteq> None then (Some ErrExist, f, clk)
         else (let (dirs1, clk1) =
                     (if fmlookup (dirs f) (hd parts) = None then
                        (fmupd (hd parts)
                           (Dir \<lparr>name = hd parts, size_fi = 0x100, modified = shd clk,
                                 isDir = True, mode = perm\<rparr> fmempty fmempty)
                           (dirs f),
                         stl clk)
                      else (dirs f, clk));
                   info1 = (info f)\<lparr>modified := shd clk1\<rparr>;
                   clk2 = stl clk1
               in if length parts = 1 then (None, Dir info1 dirs1 (files f), clk2)
                  else (case fmlookup dirs1 (hd parts) of
                          None \<Rightarrow> (Some NilPointerPanic, Dir info1 dirs1 (files f), clk2)
                        | Some child \<Rightarrow>
                            (case MkdirAll child (Join (tl parts) separator) perm clk2 of
                               (err, child', clk3) \<Rightarrow>
                                 (err, Dir info1 (fmupd (hd parts) child' dirs1) (files f), clk3)))))"
  by pat_completeness auto

text \<open>
  \<^verbatim>\<open>WriteFile\<close>. \<^verbatim>\<open>buffer\<close> is a copy of \<^verbatim>\<open>data\<close>. The first argument is the mode test
  of \<open>overwrite\<close>.
\<close>

function WriteFile ::
  "(FileMode \<Rightarrow> bool) \<Rightarrow> dir \<Rightarrow> string \<Rightarrow> byte list \<Rightarrow> FileMode \<Rightarrow> clock
     \<Rightarrow> error option \<times> dir \<times> clock"
where
  "WriteFile mode_ok f path data perm clk =
     (let parts = Split path separator
      in if length parts = 1 then
           (let buffer = data
            in (case fmlookup (files f) (hd parts) of
                  Some existing \<Rightarrow>
                    (case overwrite mode_ok existing buffer perm clk of
                       (err, existing', clk') \<Rightarrow>
                         (err, Dir (info f) (dirs f) (fmupd (hd parts) existing' (files f)), clk'))
                | None \<Rightarrow>
                    (None,
                     Dir (info f) (dirs f)
                       (fmupd (hd parts)
                          \<lparr>file_info = \<lparr>name = hd parts, size_fi = of_nat (length buffer),
                                        modified = shd clk, isDir = False, mode = perm\<rparr>,
                           content = buffer\<rparr>
                          (files f)),
                     stl clk)))
         else (case fmlookup (dirs f) (hd parts) of
                 None \<Rightarrow> (Some ErrNotExist, f, clk)
               | Some child \<Rightarrow>
                   (case WriteFile mode_ok child (Join (tl parts) separator) data perm clk of
                      (err, child', clk') \<Rightarrow>
                        (err, Dir (info f) (fmupd (hd parts) child' (dirs f)) (files f), clk'))))"
  by pat_completeness auto

subsection \<open>Reading a handle to its end\<close>

text \<open>\<^verbatim>\<open>Read\<close> through the \<^verbatim>\<open>fs.File\<close> interface, into a buffer of \<open>n\<close> bytes.\<close>

fun handle_Read :: "handle \<Rightarrow> nat \<Rightarrow> (error + byte list) \<times> handle" where
  "handle_Read (DirHandle d) n =
     (case Read d n of (k, Some err) \<Rightarrow> (Inl err, DirHandle d) | (k, None) \<Rightarrow> (Inr [], DirHandle d))"
| "handle_Read (FileHandle r) n =
     (case reader_Read r n of (res, r') \<Rightarrow> (res, FileHandle r'))"

text \<open>
  The caller's loop that reads a handle to completion, as \<^verbatim>\<open>io.ReadAll\<close> does, with a
  buffer of \<open>n\<close> bytes: it collects what \<^verbatim>\<open>Read\<close> returns until the end-of-stream mark
  (the result is then the bytes collected) or another error (the result is that error).
  A read that returns no byte and no error would be repeated for ever: the loop does
  not return, which is \<open>None\<close>.
\<close>

function ReadAll :: "nat \<Rightarrow> handle \<Rightarrow> byte list \<Rightarrow> (error + byte list) option" where
  "ReadAll n h acc =
     (case handle_Read h n of
        (Inl err, h') \<Rightarrow> if err = EOF then Some (Inr acc) else Some (Inl err)
      | (Inr chunk, h') \<Rightarrow> if chunk = [] then None else ReadAll n h' (acc @ chunk))"
  by pat_completeness auto

text \<open>The bytes a handle has not yet presented: what bounds the loop.\<close>

fun remaining :: "handle \<Rightarrow> nat" where
  "remaining (FileHandle r) = length (r_content r) - pos r"
| "remaining (DirHandle d) = 0"

subsection \<open>Path resolution with the mutex\<close>

text \<open>
  The definitions above leave the embedded \<^verbatim>\<open>sync.RWMutex\<close> of a \<^verbatim>\<open>dir\<close> out. In \<^verbatim>\<open>Open\<close>,
  \<^verbatim>\<open>Stat\<close>, \<^verbatim>\<open>getFile\<close>, \<^verbatim>\<open>getDir\<close> and \<^verbatim>\<open>ReadDir\<close> the calls \<^verbatim>\<open>d.RLock()\<close> and \<^verbatim>\<open>d.RUnlock()\<close>
  are the only statements that write to a node. This subsection embeds these five
  methods a second time, statement by statement and with these calls, over nodes that
  carry their mutex; the tree is passed through every call, so that what a call leaves
  behind is computed from its statements.

  A read-write mutex is the number of read locks held and whether the write lock is
  held. One call runs at a time and nothing else runs beside it: \<^verbatim>\<open>RLock\<close> on a mutex
  whose write lock is held does not return, and \<^verbatim>\<open>RUnlock\<close> on a mutex with no read lock is
  a fatal error. Both are the value \<open>None\<close>: a call that gives \<open>None\<close> has not returned.
\<close>

record RWMutex =
  readerCount :: nat
  writerHeld :: bool

definition RLock :: "RWMutex \<Rightarrow> RWMutex option" where
  "RLock m = (if writerHeld m then None else Some (m\<lparr>readerCount := Suc (readerCount m)\<rparr>))"

definition RUnlock :: "RWMutex \<Rightarrow> RWMutex option" where
  "RUnlock m = (if readerCount m = 0 then None else Some (m\<lparr>readerCount := readerCount m - 1\<rparr>))"

text \<open>The struct \<^verbatim>\<open>dir\<close> with all four of its fields.\<close>

datatype mdir =
  MDir (mutex: RWMutex) (minfo: fileinfo) (mdirs: "(string, mdir) fmap")
    (mfiles: "(string, file) fmap")

text \<open>\<^verbatim>\<open>d.RLock()\<close> and \<^verbatim>\<open>d.RUnlock()\<close>: the promoted methods of the embedded mutex.\<close>

definition dir_RLock :: "mdir \<Rightarrow> mdir option" where
  "dir_RLock d = map_option (\<lambda>m. MDir m (minfo d) (mdirs d) (mfiles d)) (RLock (mutex d))"

definition dir_RUnlock :: "mdir \<Rightarrow> mdir option" where
  "dir_RUnlock d = map_option (\<lambda>m. MDir m (minfo d) (mdirs d) (mfiles d)) (RUnlock (mutex d))"

text \<open>
  A \<^verbatim>\<open>*dir\<close> that a method returns points into the tree of its receiver. Here it is the
  list of keys that leads from the receiver to the node: \<open>deref\<close> reads the node at a
  pointer, \<open>assign\<close> writes a node there, and \<open>store\<close> writes the child at one key. A method
  called on a child works on the child in place: the child it leaves is stored back
  under its key.
\<close>

type_synonym ptr = "string list"

definition store :: "mdir \<Rightarrow> string \<Rightarrow> mdir \<Rightarrow> mdir" where
  "store d k c = MDir (mutex d) (minfo d) (fmupd k c (mdirs d)) (mfiles d)"



text \<open>
  \<^verbatim>\<open>getDir\<close>: the empty name returns the receiver; otherwise the first part is looked up
  between \<^verbatim>\<open>d.RLock()\<close> and \<^verbatim>\<open>d.RUnlock()\<close>, and the method goes on in the child found.
\<close>

function getDir_mu :: "mdir \<Rightarrow> string \<Rightarrow> ((error + ptr) \<times> mdir) option" where
  "getDir_mu d nm =
     (if nm = [] then Some (Inr [], d)
      else (let parts = Split nm separator
            in do {
                 d1 \<leftarrow> dir_RLock d;
                 let look = fmlookup (mdirs d1) (hd parts);
                 d2 \<leftarrow> dir_RUnlock d1;
                 (case look of
                    Some f \<Rightarrow>
                      do {
                        (r, f') \<leftarrow> getDir_mu f (Join (tl parts) separator);
                        Some (map_sum id ((#) (hd parts)) r, store d2 (hd parts) f')
                      }
                  | None \<Rightarrow> Some (Inl ErrNotExist, d2))
               }))"
  by pat_completeness auto







section \<open>Definitions for the statements\<close>

text \<open>Following a list of keys down the child directories of a node.\<close>

fun descend :: "dir \<Rightarrow> string list \<Rightarrow> dir option" where
  "descend d [] = Some d"
| "descend d (k # ks) = (case fmlookup (dirs d) k of None \<Rightarrow> None | Some c \<Rightarrow> descend c ks)"

text \<open>A lookup that misses is the error \<^verbatim>\<open>fs.ErrNotExist\<close>.\<close>

definition found :: "'a option \<Rightarrow> error + 'a" where
  "found r = (case r of None \<Rightarrow> Inl ErrNotExist | Some x \<Rightarrow> Inr x)"

text \<open>The parts of a path without one empty last part (a trailing separator).\<close>

definition strip_trailing :: "string list \<Rightarrow> string list" where
  "strip_trailing ps = (if 1 < length ps \<and> last ps = [] then butlast ps else ps)"

text \<open>
  The walk of \<^verbatim>\<open>getFile\<close> over the parts of its path: an empty part before the last
  stays at the node, another part before the last goes to that child directory, the last
  part is looked up among the files.
\<close>

fun file_at :: "dir \<Rightarrow> string list \<Rightarrow> error + file" where
  "file_at d [] = Inl ErrNotExist"
| "file_at d [p] = found (fmlookup (files d) p)"
| "file_at d (p # q # qs) =
     (if p = [] then file_at d (q # qs)
      else (case fmlookup (dirs d) p of
              None \<Rightarrow> Inl ErrNotExist
            | Some c \<Rightarrow> file_at c (q # qs)))"

text \<open>The node of the struct literal in \<^verbatim>\<open>MkdirAll\<close>: an empty directory.\<close>

definition new_dir :: "string \<Rightarrow> FileMode \<Rightarrow> time \<Rightarrow> dir" where
  "new_dir p perm t =
     Dir \<lparr>name = p, size_fi = 0x100, modified = t, isDir = True, mode = perm\<rparr> fmempty fmempty"

text \<open>
  The invariant of the data model: in no node of the tree is a name a key of both the
  child directories and the child files.
\<close>

primrec names_disjoint :: "dir \<Rightarrow> bool" where
  "names_disjoint (Dir i ds fs) \<longleftrightarrow>
     fmdom ds |\<inter>| fmdom fs = {||} \<and> fmpred (\<lambda>k ok. ok) (fmmap names_disjoint ds)"

text \<open>
  From a node with its mutex to the node without: the tree that the methods read.
\<close>

primrec erase :: "mdir \<Rightarrow> dir" where
  "erase (MDir m i ds fs) = Dir i (fmmap erase ds) fs"






subsection \<open>Example values\<close>

text \<open>
  A mode test that accepts every mode, an empty root, and the trees that calls of
  \<^verbatim>\<open>MkdirAll\<close> and \<^verbatim>\<open>WriteFile\<close> make of it.
\<close>

definition accept_mode :: "FileMode \<Rightarrow> bool" where
  "accept_mode perm = True"

definition root_example :: dir where
  "root_example = new_dir [] 0x1ED 0"

text \<open>After \<^verbatim>\<open>MkdirAll("a", 0755)\<close>, the clock reading 1, 2.\<close>

definition tree_a :: dir where
  "tree_a =
     Dir ((info root_example)\<lparr>modified := 2\<rparr>)
       (fmupd ''a'' (new_dir ''a'' 0x1ED 1) fmempty) fmempty"

text \<open>After \<^verbatim>\<open>WriteFile("a", []byte{1}, 0644)\<close>, the clock reading 3.\<close>

definition file_example :: "file" where
  "file_example =
     \<lparr>file_info = \<lparr>name = ''a'', size_fi = 1, modified = 3, isDir = False, mode = 0x1A4\<rparr>,
      content = [1]\<rparr>"

definition tree_file_a :: dir where
  "tree_file_a = Dir (info root_example) fmempty (fmupd ''a'' file_example fmempty)"

text \<open>After \<^verbatim>\<open>MkdirAll("a/b", 0755)\<close>, the clock reading 1, 2, 3, 4.\<close>

definition tree_a_b :: dir where
  "tree_a_b =
     Dir ((info root_example)\<lparr>modified := 2\<rparr>)
       (fmupd ''a''
          (Dir \<lparr>name = ''a'', size_fi = 0x100, modified = 4, isDir = True, mode = 0x1ED\<rparr>
             (fmupd ''b'' (new_dir ''b'' 0x1ED 3) fmempty) fmempty)
          fmempty)
       fmempty"

text \<open>\<open>tree_a\<close> after \<^verbatim>\<open>WriteFile("a/f", []byte{7, 8, 9}, 0644)\<close>, the clock reading 5.\<close>

definition tree_a_f :: dir where
  "tree_a_f =
     Dir (info tree_a)
       (fmupd ''a''
          (Dir (info (new_dir ''a'' 0x1ED 1)) fmempty
             (fmupd ''f''
                \<lparr>file_info = \<lparr>name = ''f'', size_fi = 3, modified = 5, isDir = False,
                              mode = 0x1A4\<rparr>,
                 content = [7, 8, 9]\<rparr>
                fmempty))
          fmempty)
       fmempty"

text \<open>\<open>tree_a\<close> after \<^verbatim>\<open>WriteFile("a/", []byte{1}, 0644)\<close>, the clock reading 3.\<close>

definition empty_name_file :: "file" where
  "empty_name_file =
     \<lparr>file_info = \<lparr>name = [], size_fi = 1, modified = 3, isDir = False, mode = 0x1A4\<rparr>,
      content = [1]\<rparr>"

definition dir_a_empty_name :: dir where
  "dir_a_empty_name =
     Dir (info (new_dir ''a'' 0x1ED 1)) fmempty (fmupd [] empty_name_file fmempty)"

definition tree_a_empty_name :: dir where
  "tree_a_empty_name = Dir (info tree_a) (fmupd ''a'' dir_a_empty_name fmempty) fmempty"

text \<open>\<open>tree_a\<close> after \<^verbatim>\<open>WriteFile("a", []byte{1}, 0644)\<close>, the clock reading 3.\<close>

definition tree_dir_and_file_a :: dir where
  "tree_dir_and_file_a =
     Dir (info tree_a) (fmupd ''a'' (new_dir ''a'' 0x1ED 1) fmempty)
       (fmupd ''a'' file_example fmempty)"

text \<open>After \<^verbatim>\<open>WriteFile(".", []byte{1, 2}, 0644)\<close>, the clock reading 5.\<close>

definition tree_dot_file :: dir where
  "tree_dot_file =
     Dir (info root_example) fmempty
       (fmupd ''.''
          \<lparr>file_info = \<lparr>name = ''.'', size_fi = 2, modified = 5, isDir = False, mode = 0x1A4\<rparr>,
           content = [1, 2]\<rparr>
          fmempty)"

text \<open>
  After \<^verbatim>\<open>MkdirAll("/d", 0755)\<close>, the clock reading 1, 2, 3, 4, and then after
  \<^verbatim>\<open>WriteFile("/d/x", []byte{1, 2}, 0644)\<close>, the clock reading 5.
\<close>

definition tree_slash_d :: dir where
  "tree_slash_d =
     Dir ((info root_example)\<lparr>modified := 2\<rparr>)
       (fmupd []
          (Dir \<lparr>name = [], size_fi = 0x100, modified = 4, isDir = True, mode = 0x1ED\<rparr>
             (fmupd ''d'' (new_dir ''d'' 0x1ED 3) fmempty) fmempty)
          fmempty)
       fmempty"

definition tree_slash_d_x :: dir where
  "tree_slash_d_x =
     Dir ((info root_example)\<lparr>modified := 2\<rparr>)
       (fmupd []
          (Dir \<lparr>name = [], size_fi = 0x100, modified = 4, isDir = True, mode = 0x1ED\<rparr>
             (fmupd ''d''
                (Dir (info (new_dir ''d'' 0x1ED 3)) fmempty
                   (fmupd ''x''
                      \<lparr>file_info = \<lparr>name = ''x'', size_fi = 2, modified = 5, isDir = False,
                                    mode = 0x1A4\<rparr>,
                       content = [1, 2]\<rparr>
                      fmempty))
                fmempty)
             fmempty)
          fmempty)
       fmempty"


section \<open>Termination\<close>

text \<open>
  Every recursive call passes on \<^verbatim>\<open>strings.Join(parts[1:], separator)\<close>, which is shorter
  than the path it was split from.
\<close>

lemma Split_not_Nil: "Split s sep \<noteq> []"
  by (induction s) (auto split: list.splits)

lemma Join_Cons: "ps \<noteq> [] \<Longrightarrow> Join (p # ps) sep = p @ sep # Join ps sep"
  by (cases ps) auto

lemma Join_Split: "Join (Split s sep) sep = s"
proof (induction s)
  case Nil
  then show ?case by simp
next
  case (Cons c cs)
  show ?case
  proof (cases "c = sep")
    case True
    with Cons show ?thesis by (simp add: Join_Cons Split_not_Nil)
  next
    case False
    obtain p ps where sp: "Split cs sep = p # ps"
      using Split_not_Nil [of cs sep] by (cases "Split cs sep") auto
    with Cons False show ?thesis by (cases ps) auto
  qed
qed

lemma length_Join_tl_Split:
  assumes "s \<noteq> []"
  shows "length (Join (tl (Split s sep)) sep) < length s"
proof -
  obtain p ps where sp: "Split s sep = p # ps"
    using Split_not_Nil [of s sep] by (cases "Split s sep") auto
  have s: "Join (p # ps) sep = s"
    using Join_Split [of s sep] sp by simp
  show ?thesis
  proof (cases ps)
    case Nil
    with sp assms show ?thesis by simp
  next
    case (Cons q qs)
    with s have "s = p @ sep # Join ps sep" by simp
    then have "length s = length p + 1 + length (Join ps sep)" by simp
    with sp show ?thesis by simp
  qed
qed

termination getDir
  by (relation "measure (\<lambda>(d, nm). length nm)") (auto simp: length_Join_tl_Split)

termination getFile
  by (relation "measure (\<lambda>(d, nm). length nm)") (auto intro!: length_Join_tl_Split)

termination ReadDir
  by (relation "measure (\<lambda>(d, nm). length nm)") (auto simp: length_Join_tl_Split)

termination MkdirAll
  by (relation "measure (\<lambda>(f, path, perm, clk). length path)")
     (auto intro!: length_Join_tl_Split)

termination WriteFile
  by (relation "measure (\<lambda>(mode_ok, f, path, data, perm, clk). length path)")
     (auto intro!: length_Join_tl_Split)

termination ReadAll
proof (relation "measure (\<lambda>(n, h, acc). remaining h)")
  show "wf (measure (\<lambda>(n, h, acc). remaining h))"
    by simp
next
  fix n :: nat and h h' :: handle and acc chunk :: "byte list" and res
  assume "(res, h') = handle_Read h n" and "res = Inr chunk" and "chunk \<noteq> []"
  then show "((n, h', acc @ chunk), (n, h, acc)) \<in> measure (\<lambda>(n, h, acc). remaining h)"
    by (cases h) (auto simp: reader_Read_def Read_def Let_def split: if_splits)
qed

declare getDir.simps [simp del] getFile.simps [simp del] ReadDir.simps [simp del]
  MkdirAll.simps [simp del] WriteFile.simps [simp del] ReadAll.simps [simp del]

termination getDir_mu
  by (relation "measure (\<lambda>(d, nm). length nm)") (auto simp: length_Join_tl_Split)

declare getDir_mu.simps [simp del]




section \<open>Paths and their parts\<close>

lemma Split_no_sep: "p \<in> set (Split s sep) \<Longrightarrow> sep \<notin> set p"
proof (induction s arbitrary: p)
  case Nil
  then show ?case by simp
next
  case (Cons c cs)
  obtain q qs where sp: "Split cs sep = q # qs"
    using Split_not_Nil [of cs sep] by (cases "Split cs sep") auto
  with Cons show ?case by (auto split: if_splits)
qed

lemma Split_single: "sep \<notin> set p \<Longrightarrow> Split p sep = [p]"
  by (induction p) auto

lemma Split_append_sep:
  "sep \<notin> set p \<Longrightarrow> Split (p @ sep # s) sep = p # Split s sep"
  by (induction p) (auto simp: Split_single)

lemma Split_Join:
  "ps \<noteq> [] \<Longrightarrow> (\<forall>p\<in>set ps. sep \<notin> set p) \<Longrightarrow> Split (Join ps sep) sep = ps"
proof (induction ps)
  case Nil
  then show ?case by simp
next
  case (Cons p ps)
  show ?case
  proof (cases ps)
    case Nil
    with Cons.prems show ?thesis by (simp add: Split_single)
  next
    case (Cons q qs)
    with Cons.prems Cons.IH show ?thesis
      by (simp add: Split_append_sep)
  qed
qed

lemma Split_snoc_sep: "Split (s @ [sep]) sep = Split s sep @ [[]]"
proof (induction s)
  case Nil
  then show ?case by simp
next
  case (Cons c cs)
  obtain p ps where "Split cs sep = p # ps"
    using Split_not_Nil [of cs sep] by (cases "Split cs sep") auto
  with Cons show ?case by auto
qed

lemma Split_cases:
  obtains p where "Split s sep = [p]" | p q qs where "Split s sep = p # q # qs"
proof (cases "Split s sep")
  case Nil
  then show ?thesis by (simp add: Split_not_Nil)
next
  case (Cons p ps)
  with that show ?thesis by (cases ps) auto
qed

lemma Join_eq_Nil_iff: "Join ps sep = [] \<longleftrightarrow> ps = [] \<or> ps = [[]]"
  by (induction ps sep rule: Join.induct) auto

section \<open>Resolution in closed form\<close>

lemma getDir_Nil: "getDir d [] = Inr d"
  by (simp add: getDir.simps)

lemma getDir_step:
  "nm \<noteq> [] \<Longrightarrow> getDir d nm =
     (case fmlookup (dirs d) (hd (Split nm separator)) of
        Some f \<Rightarrow> getDir f (Join (tl (Split nm separator)) separator)
      | None \<Rightarrow> Inl ErrNotExist)"
  by (subst getDir.simps) (simp add: Let_def)

lemma getDir_parts:
  "ps \<noteq> [] \<Longrightarrow> ps \<noteq> [[]] \<Longrightarrow> (\<forall>p\<in>set ps. separator \<notin> set p) \<Longrightarrow>
   getDir d (Join ps separator) = found (descend d (strip_trailing ps))"
proof (induction ps arbitrary: d)
  case Nil
  then show ?case by simp
next
  case (Cons p ps)
  have ne: "Join (p # ps) separator \<noteq> []"
    using Cons.prems by (simp add: Join_eq_Nil_iff)
  have sp: "Split (Join (p # ps) separator) separator = p # ps"
    using Cons.prems by (intro Split_Join) auto
  show ?case
  proof (cases "ps = [] \<or> ps = [[]]")
    case True
    then have j: "Join ps separator = []" by (simp add: Join_eq_Nil_iff)
    from True have st: "strip_trailing (p # ps) = [p]"
      by (auto simp: strip_trailing_def)
    show ?thesis
      by (simp add: getDir_step [OF ne] sp j getDir_Nil st found_def split: option.splits)
  next
    case False
    then have st: "strip_trailing (p # ps) = p # strip_trailing ps"
      by (cases ps) (auto simp: strip_trailing_def)
    from False Cons.prems have ih: "\<And>f. getDir f (Join ps separator) = found (descend f (strip_trailing ps))"
      by (intro Cons.IH) auto
    show ?thesis
      by (simp add: getDir_step [OF ne] sp ih st found_def split: option.splits)
  qed
qed

lemma getDir_closed:
  "getDir d nm =
     (if nm = [] then Inr d else found (descend d (strip_trailing (Split nm separator))))"
proof (cases "nm = []")
  case True
  then show ?thesis by (simp add: getDir_Nil)
next
  case False
  have "Split nm separator \<noteq> [[]]"
    using False Join_Split [of nm separator] by auto
  then have "getDir d (Join (Split nm separator) separator) =
      found (descend d (strip_trailing (Split nm separator)))"
    using Split_no_sep [of _ nm separator]
    by (intro getDir_parts) (auto simp: Split_not_Nil)
  with False show ?thesis by (simp add: Join_Split)
qed

lemma getDir_segment:
  "separator \<notin> set p \<Longrightarrow> getDir d p = (if p = [] then Inr d else found (fmlookup (dirs d) p))"
  by (simp add: getDir_closed Split_single strip_trailing_def found_def split: option.splits)

lemma getFile_single:
  "Split nm separator = [p] \<Longrightarrow> getFile d nm = found (fmlookup (files d) nm)"
  by (subst getFile.simps) (simp add: Let_def found_def split: option.splits)

lemma getFile_multi:
  "Split nm separator = p # q # qs \<Longrightarrow> getFile d nm =
     (case getDir d p of
        Inl err \<Rightarrow> Inl err
      | Inr sub \<Rightarrow> getFile sub (Join (q # qs) separator))"
  by (subst getFile.simps) (simp add: Let_def cong: sum.case_cong)

lemma getFile_file_at:
  "ps \<noteq> [] \<Longrightarrow> (\<forall>p\<in>set ps. separator \<notin> set p) \<Longrightarrow>
   getFile d (Join ps separator) = file_at d ps"
proof (induction d ps rule: file_at.induct)
  case (1 d)
  then show ?case by simp
next
  case (2 d p)
  then have "Split p separator = [p]" by (simp add: Split_single)
  then show ?case by (simp add: getFile_single [of p p])
next
  case (3 d p q qs)
  have sp: "Split (Join (p # q # qs) separator) separator = p # q # qs"
    using "3.prems" by (intro Split_Join) auto
  have p: "separator \<notin> set p"
    using "3.prems" by simp
  have step: "getFile d (Join (p # q # qs) separator) =
      (case getDir d p of Inl err \<Rightarrow> Inl err
       | Inr sub \<Rightarrow> getFile sub (Join (q # qs) separator))"
    by (rule getFile_multi) (rule sp)
  show ?case
  proof (cases "p = []")
    case True
    with "3.IH"(1) "3.prems" have "getFile d (Join (q # qs) separator) = file_at d (q # qs)"
      by simp
    with True show ?thesis
      unfolding step by (simp add: getDir_Nil)
  next
    case False
    show ?thesis
    proof (cases "fmlookup (dirs d) p")
      case None
      with False show ?thesis
        unfolding step by (simp add: getDir_segment [OF p] found_def)
    next
      case (Some c)
      with "3.IH"(2) [OF False Some] "3.prems"
      have "getFile c (Join (q # qs) separator) = file_at c (q # qs)"
        by simp
      with False Some show ?thesis
        unfolding step by (simp add: getDir_segment [OF p] found_def)
    qed
  qed
qed

lemma file_at_descend:
  "ps \<noteq> [] \<Longrightarrow>
   file_at d ps =
     (case descend d (filter (\<lambda>k. k \<noteq> []) (butlast ps)) of
        None \<Rightarrow> Inl ErrNotExist
      | Some c \<Rightarrow> found (fmlookup (files c) (last ps)))"
  by (induction d ps rule: file_at.induct) (auto split: option.splits)

lemma getFile_parts:
  "ps \<noteq> [] \<Longrightarrow> (\<forall>p\<in>set ps. separator \<notin> set p) \<Longrightarrow>
   getFile d (Join ps separator) =
     (case descend d (filter (\<lambda>k. k \<noteq> []) (butlast ps)) of
        None \<Rightarrow> Inl ErrNotExist
      | Some c \<Rightarrow> found (fmlookup (files c) (last ps)))"
  by (simp add: getFile_file_at file_at_descend)

lemma getFile_closed:
  "getFile d nm =
     (case descend d (filter (\<lambda>k. k \<noteq> []) (butlast (Split nm separator))) of
        None \<Rightarrow> Inl ErrNotExist
      | Some c \<Rightarrow> found (fmlookup (files c) (last (Split nm separator))))"
  using getFile_parts [of "Split nm separator" d] Split_no_sep [of _ nm separator]
  by (simp add: Split_not_Nil Join_Split)

lemma getFile_error: "getFile d nm = Inl e \<Longrightarrow> e = ErrNotExist"
  by (auto simp: getFile_closed found_def split: option.splits)

lemma getDir_error: "getDir d nm = Inl e \<Longrightarrow> e = ErrNotExist"
  by (auto simp: getDir_closed found_def split: option.splits if_splits)

lemma Open_closed:
  "Open d nm =
     (if nm = [] \<or> nm = ''.'' then Inr (DirHandle d)
      else (case getFile d nm of
              Inr f \<Rightarrow> Inr (FileHandle (openR f))
            | Inl err \<Rightarrow>
                (case getDir d nm of
                   Inr c \<Rightarrow> Inr (DirHandle c)
                 | Inl err' \<Rightarrow> Inl (Errorf_no_such_file nm))))"
  by (auto simp: Open_def split: sum.splits dest: getFile_error getDir_error)

lemma ReadDir_Nil:
  "ReadDir d [] =
     Inr (sort_Slice_by_Name
            (map (\<lambda>f. reader_Stat (openR f)) (range_values (files d)) @
             map info (range_values (dirs d))))"
  by (simp add: ReadDir.simps)


section \<open>The steps of \<^verbatim>\<open>WriteFile\<close> and \<^verbatim>\<open>MkdirAll\<close>\<close>

lemma WriteFile_single:
  "Split path separator = [p] \<Longrightarrow>
   WriteFile mode_ok f path data perm clk =
     (case fmlookup (files f) p of
        Some existing \<Rightarrow>
          (case overwrite mode_ok existing data perm clk of
             (err, existing', clk') \<Rightarrow>
               (err, Dir (info f) (dirs f) (fmupd p existing' (files f)), clk'))
      | None \<Rightarrow>
          (None,
           Dir (info f) (dirs f)
             (fmupd p
                \<lparr>file_info = \<lparr>name = p, size_fi = of_nat (length data),
                              modified = shd clk, isDir = False, mode = perm\<rparr>,
                 content = data\<rparr>
                (files f)),
           stl clk))"
  by (subst WriteFile.simps) (simp add: Let_def split: option.splits prod.splits)

lemma WriteFile_multi:
  "Split path separator = p # q # qs \<Longrightarrow>
   WriteFile mode_ok f path data perm clk =
     (case fmlookup (dirs f) p of
        None \<Rightarrow> (Some ErrNotExist, f, clk)
      | Some child \<Rightarrow>
          (case WriteFile mode_ok child (Join (q # qs) separator) data perm clk of
             (err, child', clk') \<Rightarrow>
               (err, Dir (info f) (fmupd p child' (dirs f)) (files f), clk')))"
  by (subst WriteFile.simps) (simp add: Let_def split: option.splits prod.splits)

lemma WriteFile_parts:
  "ps \<noteq> [] \<Longrightarrow> (\<forall>p\<in>set ps. separator \<notin> set p) \<Longrightarrow>
   WriteFile mode_ok d (Join ps separator) data perm clk = (None, d', clk') \<Longrightarrow>
   \<exists>c' f'. descend d' (butlast ps) = Some c' \<and> fmlookup (files c') (last ps) = Some f' \<and>
     content f' = data"
proof (induction ps arbitrary: d d' clk')
  case Nil
  then show ?case by simp
next
  case (Cons p ps)
  have sp: "Split (Join (p # ps) separator) separator = p # ps"
    using Cons.prems by (intro Split_Join) auto
  show ?case
  proof (cases ps)
    case Nil
    with Cons.prems(3) sp show ?thesis
      by (auto simp: WriteFile_single [of _ p] overwrite_def split: option.splits if_splits)
  next
    case (Cons q qs)
    have w0: "WriteFile mode_ok d (Join (p # q # qs) separator) data perm clk = (None, d', clk')"
      using Cons.prems(3) Cons by simp
    have sp': "Split (Join (p # q # qs) separator) separator = p # q # qs"
      using sp Cons by simp
    obtain child child' where
      c: "fmlookup (dirs d) p = Some child"
      and w: "WriteFile mode_ok child (Join (q # qs) separator) data perm clk = (None, child', clk')"
      and d': "d' = Dir (info d) (fmupd p child' (dirs d)) (files d)"
      using w0 unfolding WriteFile_multi [OF sp']
      by (auto split: option.splits prod.splits)
    from Cons.prems Cons have "\<exists>c' f'. descend child' (butlast (q # qs)) = Some c' \<and>
        fmlookup (files c') (last (q # qs)) = Some f' \<and> content f' = data"
      using Cons.IH [of child child' clk'] w by simp
    with d' Cons show ?thesis by auto
  qed
qed

lemma WriteFile_parts_succeeds:
  "ps \<noteq> [] \<Longrightarrow> (\<forall>p\<in>set ps. separator \<notin> set p) \<Longrightarrow>
   descend d (butlast ps) = Some c \<Longrightarrow>
   mode_ok perm \<or> fmlookup (files c) (last ps) = None \<Longrightarrow>
   fst (WriteFile mode_ok d (Join ps separator) data perm clk) = None"
proof (induction ps arbitrary: d)
  case Nil
  then show ?case by simp
next
  case (Cons p ps)
  have sp: "Split (Join (p # ps) separator) separator = p # ps"
    using Cons.prems by (intro Split_Join) auto
  show ?case
  proof (cases ps)
    case Nil
    with Cons.prems sp show ?thesis
      by (auto simp: WriteFile_single [of _ p] overwrite_def split: option.splits)
  next
    case (Cons q qs)
    have sp': "Split (Join (p # q # qs) separator) separator = p # q # qs"
      using sp Cons by simp
    obtain child where ch: "fmlookup (dirs d) p = Some child"
      and dc: "descend child (butlast (q # qs)) = Some c"
      using Cons.prems(3) Cons by (auto split: option.splits)
    have "fst (WriteFile mode_ok child (Join (q # qs) separator) data perm clk) = None"
      using Cons.IH [of child] Cons.prems(2,4) dc Cons by simp
    with ch show ?thesis
      unfolding Cons WriteFile_multi [OF sp'] by (auto split: prod.splits)
  qed
qed

lemma WriteFile_succeeds:
  "descend d (butlast (Split nm separator)) = Some c \<Longrightarrow>
   mode_ok perm \<or> fmlookup (files c) (last (Split nm separator)) = None \<Longrightarrow>
   fst (WriteFile mode_ok d nm data perm clk) = None"
  using WriteFile_parts_succeeds [of "Split nm separator" d c mode_ok perm data clk]
    Split_no_sep [of _ nm separator]
  by (simp add: Split_not_Nil Join_Split)

lemma fmupd_same: "fmlookup m k = Some v \<Longrightarrow> fmupd k v m = m"
  by (rule fmap_ext) auto

lemma WriteFile_parts_not_found:
  "ps \<noteq> [] \<Longrightarrow> (\<forall>p\<in>set ps. separator \<notin> set p) \<Longrightarrow>
   WriteFile mode_ok f (Join ps separator) data perm clk = (Some ErrNotExist, f', clk') \<Longrightarrow>
   f' = f \<and> clk' = clk"
proof (induction ps arbitrary: f f' clk')
  case Nil
  then show ?case by simp
next
  case (Cons p ps)
  have sp: "Split (Join (p # ps) separator) separator = p # ps"
    using Cons.prems by (intro Split_Join) auto
  show ?case
  proof (cases ps)
    case Nil
    with Cons.prems(3) sp show ?thesis
      by (auto simp: WriteFile_single [of _ p] overwrite_def split: option.splits if_splits)
  next
    case (Cons q qs)
    have sp': "Split (Join (p # q # qs) separator) separator = p # q # qs"
      using sp Cons by simp
    have w0: "WriteFile mode_ok f (Join (p # q # qs) separator) data perm clk =
        (Some ErrNotExist, f', clk')"
      using Cons.prems(3) Cons by simp
    show ?thesis
    proof (cases "fmlookup (dirs f) p")
      case None
      with w0 show ?thesis
        unfolding WriteFile_multi [OF sp'] by simp
    next
      case (Some child)
      then obtain child' where
        w: "WriteFile mode_ok child (Join (q # qs) separator) data perm clk =
              (Some ErrNotExist, child', clk')"
        and f': "f' = Dir (info f) (fmupd p child' (dirs f)) (files f)"
        using w0 unfolding WriteFile_multi [OF sp']
        by (auto split: prod.splits)
      have "child' = child \<and> clk' = clk"
        using Cons.IH [of child child' clk'] Cons.prems(2) w Cons by simp
      with f' Some show ?thesis
        by (simp add: fmupd_same)
    qed
  qed
qed

lemma MkdirAll_exists:
  "fmlookup (files f) (hd (Split path separator)) = Some x \<Longrightarrow>
   MkdirAll f path perm clk = (Some ErrExist, f, clk)"
  by (subst MkdirAll.simps) (simp add: Let_def)

lemma MkdirAll_single:
  "Split path separator = [p] \<Longrightarrow> fmlookup (files f) p = None \<Longrightarrow>
   MkdirAll f path perm clk =
     (if fmlookup (dirs f) p = None
      then (None,
            Dir ((info f)\<lparr>modified := shd (stl clk)\<rparr>)
              (fmupd p (new_dir p perm (shd clk)) (dirs f)) (files f),
            stl (stl clk))
      else (None, Dir ((info f)\<lparr>modified := shd clk\<rparr>) (dirs f) (files f), stl clk))"
  by (subst MkdirAll.simps) (simp add: Let_def new_dir_def)

lemma MkdirAll_multi_new:
  "Split path separator = p # q # qs \<Longrightarrow> fmlookup (files f) p = None \<Longrightarrow>
   fmlookup (dirs f) p = None \<Longrightarrow>
   MkdirAll f path perm clk =
     (case MkdirAll (new_dir p perm (shd clk)) (Join (q # qs) separator) perm (stl (stl clk)) of
        (err, child', clk3) \<Rightarrow>
          (err, Dir ((info f)\<lparr>modified := shd (stl clk)\<rparr>) (fmupd p child' (dirs f)) (files f),
           clk3))"
  by (subst MkdirAll.simps) (simp add: Let_def new_dir_def split: prod.splits)

lemma MkdirAll_multi_old:
  "Split path separator = p # q # qs \<Longrightarrow> fmlookup (files f) p = None \<Longrightarrow>
   fmlookup (dirs f) p = Some child \<Longrightarrow>
   MkdirAll f path perm clk =
     (case MkdirAll child (Join (q # qs) separator) perm (stl clk) of
        (err, child', clk3) \<Rightarrow>
          (err, Dir ((info f)\<lparr>modified := shd clk\<rparr>) (fmupd p child' (dirs f)) (files f),
           clk3))"
  by (subst MkdirAll.simps) (simp add: Let_def split: prod.splits)

lemma MkdirAll_info:
  assumes "fmlookup (files f) (hd (Split path separator)) = None"
    and "MkdirAll f path perm clk = (err, f', clk')"
  shows "info f' = (info f)\<lparr>modified :=
           (if fmlookup (dirs f) (hd (Split path separator)) = None
            then shd (stl clk) else shd clk)\<rparr>"
proof (cases path separator rule: Split_cases)
  case (1 p)
  with assms show ?thesis
    by (auto simp: MkdirAll_single [of path p] split: if_splits)
next
  case (2 p q qs)
  show ?thesis
  proof (cases "fmlookup (dirs f) p")
    case None
    with assms 2 show ?thesis
      by (auto simp: MkdirAll_multi_new [of path p q qs] split: prod.splits)
  next
    case (Some child)
    with assms 2 show ?thesis
      by (auto simp: MkdirAll_multi_old [of path p q qs] split: prod.splits)
  qed
qed

section \<open>Reading and listing\<close>

lemma ReadAll_FileHandle:
  "0 < n \<Longrightarrow> ReadAll n (FileHandle r) acc = Some (Inr (acc @ drop (pos r) (r_content r)))"
proof (induction "length (r_content r) - pos r" arbitrary: r acc rule: less_induct)
  case less
  show ?case
  proof (cases "length (r_content r) \<le> pos r")
    case True
    then show ?thesis
      by (subst ReadAll.simps) (simp add: reader_Read_def)
  next
    case False
    define chunk where "chunk = take n (drop (pos r) (r_content r))"
    define r' where "r' = r\<lparr>pos := pos r + length chunk\<rparr>"
    have ne: "chunk \<noteq> []"
      using False less.prems by (simp add: chunk_def)
    have rd: "handle_Read (FileHandle r) n = (Inr chunk, FileHandle r')"
      using False by (simp add: reader_Read_def Let_def chunk_def r'_def)
    have "length (r_content r') - pos r' < length (r_content r) - pos r"
      using False ne by (cases chunk) (auto simp: r'_def)
    then have ih: "ReadAll n (FileHandle r') (acc @ chunk) =
        Some (Inr ((acc @ chunk) @ drop (pos r') (r_content r')))"
      using less.prems by (rule less.hyps)
    have "chunk @ drop (pos r') (r_content r') = drop (pos r) (r_content r)"
    proof -
      have "length chunk = min (length (r_content r) - pos r) n"
        by (simp add: chunk_def)
      then have "drop (pos r') (r_content r') = drop n (drop (pos r) (r_content r))"
        unfolding r'_def by (simp add: min_def add.commute split: if_splits)
      then show ?thesis
        using append_take_drop_id [of n "drop (pos r) (r_content r)"]
        by (simp add: chunk_def)
    qed
    with ih ne show ?thesis
      by (subst ReadAll.simps) (simp add: rd del: handle_Read.simps)
  qed
qed

lemma mset_sorted_list_of_fset: "mset (sorted_list_of_fset S) = mset_set (fset S)"
  using mset_set_set [of "sorted_list_of_set (fset S)"]
  by (simp add: sorted_list_of_fset.rep_eq)

lemma mset_range_values:
  "mset (range_values m) = image_mset (\<lambda>k. the (fmlookup m k)) (mset_set (fmdom' m))"
  by (simp add: range_values_def mset_sorted_list_of_fset fmdom'_alt_def)

lemma names_sorted_determined:
  "sorted (map name es) \<Longrightarrow> map name es = sorted_list_of_multiset (image_mset name (mset es))"
  by (metis mset_map sorted_list_of_multiset_mset sorted_sort_id)

section \<open>The name invariant under \<^verbatim>\<open>MkdirAll\<close>\<close>

lemma names_disjoint_Dir:
  "names_disjoint (Dir i ds fs) \<longleftrightarrow>
     fmdom ds |\<inter>| fmdom fs = {||} \<and> (\<forall>k c. fmlookup ds k = Some c \<longrightarrow> names_disjoint c)"
  by (auto simp: fmpred_iff)

declare names_disjoint.simps [simp del]

lemma names_disjoint_new_dir: "names_disjoint (new_dir p perm t)"
  by (simp add: new_dir_def names_disjoint_Dir)

lemma MkdirAll_parts_names_disjoint:
  "ps \<noteq> [] \<Longrightarrow> (\<forall>p\<in>set ps. separator \<notin> set p) \<Longrightarrow> names_disjoint f \<Longrightarrow>
   MkdirAll f (Join ps separator) perm clk = (err, f', clk') \<Longrightarrow> names_disjoint f'"
proof (induction ps arbitrary: f f' clk clk' err)
  case Nil
  then show ?case by simp
next
  case (Cons p ps)
  have sp: "Split (Join (p # ps) separator) separator = p # ps"
    using Cons.prems by (intro Split_Join) auto
  obtain i ds fs where f: "f = Dir i ds fs" by (cases f)
  have dj: "fmdom ds |\<inter>| fmdom fs = {||}"
    and ch: "\<And>k c. fmlookup ds k = Some c \<Longrightarrow> names_disjoint c"
    using Cons.prems(3) unfolding f names_disjoint_Dir by auto
  show ?case
  proof (cases "fmlookup fs p")
    case (Some x)
    then have "MkdirAll f (Join (p # ps) separator) perm clk = (Some ErrExist, f, clk)"
      using MkdirAll_exists [of f "Join (p # ps) separator" x perm clk] sp f by simp
    with Cons.prems show ?thesis by simp
  next
    case None
    then have nf: "fmlookup (files f) p = None" using f by simp
    have pn: "p |\<notin>| fmdom fs" using None by (simp add: fmdom_notI)
    have dj': "finsert p (fmdom ds) |\<inter>| fmdom fs = {||}"
      using dj pn by auto
    show ?thesis
    proof (cases ps)
      case Nil
      then have "Split (Join (p # ps) separator) separator = [p]" using sp by simp
      from MkdirAll_single [OF this nf, of perm clk] Cons.prems(4)
      show ?thesis
        using dj dj' ch f
        by (auto simp: names_disjoint_Dir names_disjoint_new_dir split: if_splits)
    next
      case (Cons q qs)
      then have sp': "Split (Join (p # ps) separator) separator = p # q # qs" using sp by simp
      have tl: "\<forall>p\<in>set ps. separator \<notin> set p" "ps \<noteq> []"
        using Cons.prems Cons by auto
      show ?thesis
      proof (cases "fmlookup ds p")
        case None
        then have nd: "fmlookup (dirs f) p = None" using f by simp
        obtain child' where
          r: "MkdirAll (new_dir p perm (shd clk)) (Join ps separator) perm (stl (stl clk)) =
                (err, child', clk')"
          and f': "f' = Dir ((info f)\<lparr>modified := shd (stl clk)\<rparr>) (fmupd p child' (dirs f)) (files f)"
          using MkdirAll_multi_new [OF sp' nf nd, of perm clk] Cons.prems(4) Cons
          by (auto split: prod.splits)
        have "names_disjoint child'"
          using Cons.IH [OF tl(2) tl(1) names_disjoint_new_dir r] .
        with f' f dj' ch show ?thesis
          by (auto simp: names_disjoint_Dir)
      next
        case (Some child)
        then have sd: "fmlookup (dirs f) p = Some child" using f by simp
        obtain child' where
          r: "MkdirAll child (Join ps separator) perm (stl clk) = (err, child', clk')"
          and f': "f' = Dir ((info f)\<lparr>modified := shd clk\<rparr>) (fmupd p child' (dirs f)) (files f)"
          using MkdirAll_multi_old [OF sp' nf sd, of perm clk] Cons.prems(4) Cons
          by (auto split: prod.splits)
        have "names_disjoint child'"
          using Cons.IH [OF tl(2) tl(1) ch [OF Some] r] .
        with f' f dj' ch show ?thesis
          by (auto simp: names_disjoint_Dir)
      qed
    qed
  qed
qed

lemma MkdirAll_names_disjoint:
  "names_disjoint f \<Longrightarrow> MkdirAll f path perm clk = (err, f', clk') \<Longrightarrow> names_disjoint f'"
  using MkdirAll_parts_names_disjoint [of "Split path separator" f perm clk err f' clk']
    Split_no_sep [of _ path separator]
  by (simp add: Split_not_Nil Join_Split)


section \<open>Resolution with the mutex\<close>







lemma erase_sel [simp]:
  "info (erase d) = minfo d" "dirs (erase d) = fmmap erase (mdirs d)" "files (erase d) = mfiles d"
  by (cases d; simp)+










lemma range_values_fmmap: "range_values (fmmap f m) = map f (range_values m)"
  by (auto simp: range_values_def fmlookup_dom_iff)







text \<open>Without the condition a call may wait for ever: the write lock of the receiver is held.\<close>

lemma getDir_mu_write_locked: "writerHeld (mutex d) \<Longrightarrow> nm \<noteq> [] \<Longrightarrow> getDir_mu d nm = None"
  by (subst getDir_mu.simps) (simp add: dir_RLock_def RLock_def Let_def)

section \<open>The claims\<close>

subsection \<open>C1: writing a file and reading it back\<close>

text \<open>
  C1 (amended). For every path other than the empty path and \<^verbatim>\<open>.\<close> that has no empty
  segment before its last one, and every byte sequence: when \<^verbatim>\<open>WriteFile\<close> of the bytes
  to the path succeeds, \<^verbatim>\<open>Open\<close> of the path on the resulting tree returns the read handle
  of a file, and reading that handle to completion, with a buffer of any positive
  length, returns exactly the bytes written. \<^verbatim>\<open>WriteFile\<close> succeeds when the directories of
  the segments before the last one exist and the mode passes the test of \<open>overwrite\<close>
  or no file is overwritten (lemma \<open>WriteFile_succeeds\<close>).
\<close>

theorem WriteFile_Open_roundtrip:
  assumes "nm \<noteq> []" and "nm \<noteq> ''.''"
    and "[] \<notin> set (butlast (Split nm separator))"
    and "WriteFile mode_ok d nm data perm clk = (None, d', clk')"
    and "0 < n"
  shows "\<exists>r. Open d' nm = Inr (FileHandle r) \<and> ReadAll n (FileHandle r) [] = Some (Inr data)"
proof -
  let ?ps = "Split nm separator"
  have "WriteFile mode_ok d (Join ?ps separator) data perm clk = (None, d', clk')"
    using assms(4) by (simp add: Join_Split)
  then obtain c' f' where c': "descend d' (butlast ?ps) = Some c'"
    and f': "fmlookup (files c') (last ?ps) = Some f'" and data: "content f' = data"
    using WriteFile_parts [of ?ps mode_ok d data perm clk d' clk'] Split_no_sep [of _ nm separator]
    by (auto simp: Split_not_Nil)
  have "filter (\<lambda>k. k \<noteq> []) (butlast ?ps) = butlast ?ps"
    using assms(3) by (auto intro: filter_True)
  with c' f' have "getFile d' nm = Inr f'"
    by (simp add: getFile_closed found_def)
  with assms(1,2) have "Open d' nm = Inr (FileHandle (openR f'))"
    by (simp add: Open_closed)
  moreover have "ReadAll n (FileHandle (openR f')) [] = Some (Inr data)"
    using assms(5) data by (simp add: ReadAll_FileHandle openR_def)
  ultimately show ?thesis by blast
qed

text \<open>The witness: a root with an empty directory \<^verbatim>\<open>a\<close>, the path \<^verbatim>\<open>a/f\<close>, three bytes.\<close>

theorem WriteFile_Open_roundtrip_witness:
  "''a/f'' \<noteq> [] \<and> ''a/f'' \<noteq> ''.'' \<and> [] \<notin> set (butlast (Split ''a/f'' separator)) \<and>
   WriteFile accept_mode tree_a ''a/f'' [7, 8, 9] 0x1A4 (sconst 5) = (None, tree_a_f, sconst 5) \<and>
   (0::nat) < 2 \<and>
   (\<exists>r. Open tree_a_f ''a/f'' = Inr (FileHandle r) \<and>
        ReadAll 2 (FileHandle r) [] = Some (Inr [7, 8, 9]))"
proof -
  have w: "WriteFile accept_mode tree_a ''a/f'' [7, 8, 9] 0x1A4 (sconst 5) =
      (None, tree_a_f, sconst 5)"
    by (simp add: WriteFile.simps tree_a_def tree_a_f_def root_example_def new_dir_def
        separator_def)
  have h: "[] \<notin> set (butlast (Split ''a/f'' separator))"
    by (simp add: separator_def)
  show ?thesis
    using WriteFile_Open_roundtrip [OF _ _ h w, of 2] w h by (simp add: separator_def)
qed

text \<open>
  The claim as stated fails at the path \<^verbatim>\<open>.\<close> on an empty root: \<^verbatim>\<open>WriteFile\<close> succeeds and
  stores a file under the key \<^verbatim>\<open>.\<close>, \<^verbatim>\<open>Open\<close> returns the directory itself, and reading a
  directory fails with \<^verbatim>\<open>fs.ErrInvalid\<close>. It fails too at \<^verbatim>\<open>/d/x\<close> after \<^verbatim>\<open>MkdirAll\<close> of
  \<^verbatim>\<open>/d\<close> on an empty root: \<^verbatim>\<open>MkdirAll\<close> and \<^verbatim>\<open>WriteFile\<close> go through a child directory of
  empty name, \<^verbatim>\<open>getFile\<close> takes the empty segment for the node itself, and \<^verbatim>\<open>Open\<close> finds
  nothing.
\<close>

theorem WriteFile_Open_roundtrip_counterexample:
  "WriteFile accept_mode root_example ''.'' [1, 2] 0x1A4 (sconst 5) =
     (None, tree_dot_file, sconst 5) \<and>
   Open tree_dot_file ''.'' = Inr (DirHandle tree_dot_file) \<and>
   ReadAll 512 (DirHandle tree_dot_file) [] = Some (Inl ErrInvalid) \<and>
   MkdirAll root_example ''/d'' 0x1ED (1 ## 2 ## 3 ## 4 ## sconst 5) =
     (None, tree_slash_d, sconst 5) \<and>
   WriteFile accept_mode tree_slash_d ''/d/x'' [1, 2] 0x1A4 (sconst 5) =
     (None, tree_slash_d_x, sconst 5) \<and>
   Open tree_slash_d_x ''/d/x'' =
     Inl (WrapError ''no such file or directory: /d/x: file does not exist'' ErrNotExist)"
  by (simp add: WriteFile.simps [of _ _ "''.''"] WriteFile.simps [of _ _ "''/d/x''"]
      WriteFile.simps [of _ _ "''d/x''"] WriteFile.simps [of _ _ "''x''"]
      MkdirAll.simps [of _ "''/d''"] MkdirAll.simps [of _ "''d''"]
      Open_def getFile.simps getDir.simps ReadAll.simps Read_def
      root_example_def tree_dot_file_def tree_slash_d_def tree_slash_d_x_def new_dir_def
      separator_def Errorf_no_such_file_def)

subsection \<open>C2: a name is not both a file and a directory\<close>

text \<open>
  C2 (fails for \<^verbatim>\<open>WriteFile\<close>). On an empty root, \<^verbatim>\<open>MkdirAll\<close> of \<^verbatim>\<open>a\<close> succeeds and keeps
  the invariant; \<^verbatim>\<open>WriteFile\<close> to \<^verbatim>\<open>a\<close> then succeeds too, and in the resulting root the
  name \<^verbatim>\<open>a\<close> is a key of the child directories and of the child files: the invariant
  is lost. \<^verbatim>\<open>MkdirAll\<close> looks for a file of the name before it creates a directory
  (lemma \<open>MkdirAll_names_disjoint\<close>: it keeps the invariant); \<^verbatim>\<open>WriteFile\<close> does not look
  for a directory of the name before it creates a file.
\<close>

theorem WriteFile_breaks_names_disjoint:
  "names_disjoint root_example \<and>
   MkdirAll root_example ''a'' 0x1ED (1 ## 2 ## sconst 3) = (None, tree_a, sconst 3) \<and>
   names_disjoint tree_a \<and>
   WriteFile accept_mode tree_a ''a'' [1] 0x1A4 (sconst 3) =
     (None, tree_dir_and_file_a, sconst 3) \<and>
   ''a'' |\<in>| fmdom (dirs tree_dir_and_file_a) \<and>
   ''a'' |\<in>| fmdom (files tree_dir_and_file_a) \<and>
   \<not> names_disjoint tree_dir_and_file_a"
  by (simp add: MkdirAll.simps WriteFile.simps root_example_def new_dir_def tree_a_def
      tree_dir_and_file_a_def file_example_def separator_def names_disjoint_Dir)

subsection \<open>C3: \<^verbatim>\<open>MkdirAll\<close> on a name taken by a file\<close>

text \<open>
  C3. When the child files of a node hold the first segment of the path, \<^verbatim>\<open>MkdirAll\<close> on
  that node returns \<^verbatim>\<open>fs.ErrExist\<close> and leaves the node as it was, with all below it: the
  file is as before, no directory is created, the modification time is not set and the
  clock is not read.
\<close>

theorem MkdirAll_file_exists:
  "fmlookup (files f) (hd (Split path separator)) = Some x \<Longrightarrow>
   MkdirAll f path perm clk = (Some ErrExist, f, clk)"
  by (rule MkdirAll_exists)

text \<open>The witness: a root with a file \<^verbatim>\<open>a\<close>, and the path \<^verbatim>\<open>a/b\<close>.\<close>

theorem MkdirAll_file_exists_witness:
  "fmlookup (files tree_file_a) (hd (Split ''a/b'' separator)) = Some file_example \<and>
   MkdirAll tree_file_a ''a/b'' 0x1ED (sconst 5) = (Some ErrExist, tree_file_a, sconst 5)"
proof -
  have h: "fmlookup (files tree_file_a) (hd (Split ''a/b'' separator)) = Some file_example"
    by (simp add: separator_def tree_file_a_def)
  from h MkdirAll_file_exists [OF h] show ?thesis by (simp add: separator_def)
qed

subsection \<open>C4: \<^verbatim>\<open>WriteFile\<close> below a directory that does not exist\<close>

text \<open>
  C4. For a path of more than one segment whose first segment is not a child directory
  of the node, \<^verbatim>\<open>WriteFile\<close> returns \<^verbatim>\<open>fs.ErrNotExist\<close> and leaves the node as it was, with
  all below it: no directory and no file is created, and the clock is not read.
\<close>

theorem WriteFile_missing_dir:
  assumes "1 < length (Split path separator)"
    and "fmlookup (dirs f) (hd (Split path separator)) = None"
  shows "WriteFile mode_ok f path data perm clk = (Some ErrNotExist, f, clk)"
proof (cases path separator rule: Split_cases)
  case (1 p)
  with assms show ?thesis by simp
next
  case (2 p q qs)
  with assms show ?thesis by (simp add: WriteFile_multi [of path p q qs])
qed

text \<open>The witness: an empty root and the path \<^verbatim>\<open>a/f\<close>.\<close>

theorem WriteFile_missing_dir_witness:
  "1 < length (Split ''a/f'' separator) \<and>
   fmlookup (dirs root_example) (hd (Split ''a/f'' separator)) = None \<and>
   WriteFile accept_mode root_example ''a/f'' [1] 0x1A4 (sconst 5) =
     (Some ErrNotExist, root_example, sconst 5)"
proof -
  have h1: "1 < length (Split ''a/f'' separator)"
    by (simp add: separator_def)
  have h2: "fmlookup (dirs root_example) (hd (Split ''a/f'' separator)) = None"
    by (simp add: separator_def root_example_def new_dir_def)
  from h1 h2 WriteFile_missing_dir [OF h1 h2] show ?thesis by (simp add: separator_def)
qed

text \<open>
  At whatever depth the directory is missing, a \<^verbatim>\<open>WriteFile\<close> that fails with
  \<^verbatim>\<open>fs.ErrNotExist\<close> leaves the node, with all below it, and the clock as they were.
\<close>

lemma WriteFile_not_found_unchanged:
  "WriteFile mode_ok f path data perm clk = (Some ErrNotExist, f', clk') \<Longrightarrow> f' = f \<and> clk' = clk"
  using WriteFile_parts_not_found [of "Split path separator" mode_ok f data perm clk f' clk']
    Split_no_sep [of _ path separator]
  by (simp add: Split_not_Nil Join_Split)

subsection \<open>C5: listing a directory\<close>

text \<open>
  C5. \<^verbatim>\<open>ReadDir\<close> with the empty path succeeds on every node. Its result holds one entry
  for each key of the child files (the metadata of that file) and one for each key of the
  child directories (the metadata of that directory) and nothing else, and it is sorted in
  ascending order of the names of the entries, strings compared byte by byte. The
  sequence of names is fixed by the entries alone: it does not depend on the order in
  which the children came into the maps or in which the maps are visited.
\<close>

theorem ReadDir_empty_path:
  "\<exists>entries. ReadDir d [] = Inr entries \<and>
     mset entries =
       image_mset (\<lambda>k. file_info (the (fmlookup (files d) k))) (mset_set (fmdom' (files d))) +
       image_mset (\<lambda>k. info (the (fmlookup (dirs d) k))) (mset_set (fmdom' (dirs d))) \<and>
     length entries = card (fmdom' (files d)) + card (fmdom' (dirs d)) \<and>
     sorted (map name entries) \<and>
     map name entries = sorted_list_of_multiset (image_mset name (mset entries))"
proof -
  let ?es = "map (\<lambda>f. reader_Stat (openR f)) (range_values (files d)) @
             map info (range_values (dirs d))"
  have "ReadDir d [] = Inr (sort_key name ?es)"
    by (simp add: ReadDir_Nil sort_Slice_by_Name_def)
  moreover have "mset (sort_key name ?es) =
       image_mset (\<lambda>k. file_info (the (fmlookup (files d) k))) (mset_set (fmdom' (files d))) +
       image_mset (\<lambda>k. info (the (fmlookup (dirs d) k))) (mset_set (fmdom' (dirs d)))"
    by (simp add: mset_range_values reader_Stat_def openR_def image_mset.compositionality comp_def)
  moreover have "length (sort_key name ?es) = card (fmdom' (files d)) + card (fmdom' (dirs d))"
    by (simp add: range_values_def sorted_list_of_fset.rep_eq fmdom'_alt_def)
  moreover have srt: "sorted (map name (sort_key name ?es))"
    by (rule sorted_sort_key)
  moreover have "map name (sort_key name ?es) =
      sorted_list_of_multiset (image_mset name (mset (sort_key name ?es)))"
    using srt by (rule names_sorted_determined)
  ultimately show ?thesis by blast
qed

text \<open>
  The example of the spec: a file \<^verbatim>\<open>x\<close> and a directory \<^verbatim>\<open>y\<close>, created in either order,
  are listed as \<^verbatim>\<open>x\<close>, \<^verbatim>\<open>y\<close>.
\<close>

lemma sorted_list_of_fset_single: "sorted_list_of_fset {|x|} = [x]"
  by (simp add: sorted_list_of_fset.rep_eq)

lemma ReadDir_either_order_example:
  "map_sum id (map name)
     (ReadDir
        (fst (snd (MkdirAll
           (fst (snd (WriteFile accept_mode root_example ''x'' [1] 0x1A4 (1 ## 2 ## 3 ## sconst 4))))
           ''y'' 0x1ED (2 ## 3 ## sconst 4))))
        []) = Inr [''x'', ''y''] \<and>
   map_sum id (map name)
     (ReadDir
        (fst (snd (WriteFile accept_mode
           (fst (snd (MkdirAll root_example ''y'' 0x1ED (1 ## 2 ## 3 ## sconst 4))))
           ''x'' [1] 0x1A4 (3 ## sconst 4))))
        []) = Inr [''x'', ''y'']"
  by (simp add: MkdirAll.simps WriteFile.simps ReadDir.simps root_example_def new_dir_def
      separator_def range_values_def sort_Slice_by_Name_def reader_Stat_def openR_def
      sorted_list_of_fset_single less_eq_char_def)

subsection \<open>C6: the order of the lookups in \<^verbatim>\<open>Open\<close>\<close>

text \<open>
  C6 (amended). For every path other than the empty path and \<^verbatim>\<open>.\<close>: when the file lookup
  and the directory lookup both fail, \<^verbatim>\<open>Open\<close> fails with the error that wraps
  \<^verbatim>\<open>fs.ErrNotExist\<close> and carries the path in its message; when the file lookup finds a
  file, \<^verbatim>\<open>Open\<close> returns the read handle of that file, whatever the directory lookup would
  find; when the file lookup fails and the directory lookup finds a directory, \<^verbatim>\<open>Open\<close>
  returns that directory; and when \<^verbatim>\<open>Open\<close> returns a directory, the file lookup has
  failed with \<^verbatim>\<open>fs.ErrNotExist\<close> and the directory is the one the directory lookup found.
\<close>

theorem Open_lookup_order:
  assumes "nm \<noteq> []" and "nm \<noteq> ''.''"
  shows "(getFile d nm = Inl e1 \<and> getDir d nm = Inl e2 \<longrightarrow>
            Open d nm =
              Inl (WrapError (''no such file or directory: '' @ nm @ '': file does not exist'')
                     ErrNotExist) \<and>
            errors_Is
              (WrapError (''no such file or directory: '' @ nm @ '': file does not exist'')
                 ErrNotExist)
              ErrNotExist) \<and>
         (getFile d nm = Inr f \<longrightarrow> Open d nm = Inr (FileHandle (openR f))) \<and>
         (getFile d nm = Inl e1 \<and> getDir d nm = Inr sub \<longrightarrow> Open d nm = Inr (DirHandle sub)) \<and>
         (Open d nm = Inr (DirHandle sub) \<longrightarrow>
            getFile d nm = Inl ErrNotExist \<and> getDir d nm = Inr sub)"
proof -
  have a: "Open d nm =
              Inl (WrapError (''no such file or directory: '' @ nm @ '': file does not exist'')
                     ErrNotExist)"
    if "getFile d nm = Inl e1" and "getDir d nm = Inl e2"
    using that assms by (simp add: Open_closed Errorf_no_such_file_def)
  have b: "Open d nm = Inr (FileHandle (openR f))" if "getFile d nm = Inr f"
    using that assms by (simp add: Open_closed)
  have c: "Open d nm = Inr (DirHandle sub)" if "getFile d nm = Inl e1" and "getDir d nm = Inr sub"
    using that assms by (simp add: Open_closed)
  have e: "getFile d nm = Inl ErrNotExist \<and> getDir d nm = Inr sub"
    if "Open d nm = Inr (DirHandle sub)"
    using that assms
    by (auto simp: Open_closed split: sum.splits dest: getFile_error)
  have "errors_Is
      (WrapError (''no such file or directory: '' @ nm @ '': file does not exist'') ErrNotExist)
      ErrNotExist"
    by simp
  with a b c e show ?thesis by blast
qed

text \<open>
  The witness: \<^verbatim>\<open>x\<close> in an empty root (neither lookup finds it), \<^verbatim>\<open>a\<close> in a root with the
  file \<^verbatim>\<open>a\<close>, and \<^verbatim>\<open>a\<close> in a root with the directory \<^verbatim>\<open>a\<close> and no file.
\<close>

theorem Open_lookup_order_witness:
  "''x'' \<noteq> [] \<and> ''x'' \<noteq> ''.'' \<and> getFile root_example ''x'' = Inl ErrNotExist \<and>
   getDir root_example ''x'' = Inl ErrNotExist \<and>
   Open root_example ''x'' =
     Inl (WrapError ''no such file or directory: x: file does not exist'' ErrNotExist) \<and>
   ''a'' \<noteq> [] \<and> ''a'' \<noteq> ''.'' \<and> getFile tree_file_a ''a'' = Inr file_example \<and>
   Open tree_file_a ''a'' = Inr (FileHandle (openR file_example)) \<and>
   getFile tree_a ''a'' = Inl ErrNotExist \<and>
   getDir tree_a ''a'' = Inr (new_dir ''a'' 0x1ED 1) \<and>
   Open tree_a ''a'' = Inr (DirHandle (new_dir ''a'' 0x1ED 1))"
proof -
  have x: "''x'' \<noteq> []" and x': "''x'' \<noteq> ''.''" and a: "''a'' \<noteq> []" and a': "''a'' \<noteq> ''.''"
    by simp_all
  have f1: "getFile root_example ''x'' = Inl ErrNotExist"
    by (simp add: getFile.simps root_example_def new_dir_def separator_def)
  have d1: "getDir root_example ''x'' = Inl ErrNotExist"
    by (simp add: getDir.simps root_example_def new_dir_def separator_def)
  have f2: "getFile tree_file_a ''a'' = Inr file_example"
    by (simp add: getFile.simps tree_file_a_def separator_def)
  have f3: "getFile tree_a ''a'' = Inl ErrNotExist"
    by (simp add: getFile.simps tree_a_def separator_def)
  have d3: "getDir tree_a ''a'' = Inr (new_dir ''a'' 0x1ED 1)"
    by (simp add: getDir.simps tree_a_def separator_def)
  have o1: "Open root_example ''x'' =
      Inl (WrapError ''no such file or directory: x: file does not exist'' ErrNotExist)"
    using Open_lookup_order [OF x x', of root_example ErrNotExist ErrNotExist file_example
        root_example, THEN conjunct1] f1 d1
    by simp
  have o2: "Open tree_file_a ''a'' = Inr (FileHandle (openR file_example))"
    using Open_lookup_order [OF a a', of tree_file_a ErrNotExist ErrNotExist file_example
        root_example, THEN conjunct2, THEN conjunct1] f2
    by simp
  have o3: "Open tree_a ''a'' = Inr (DirHandle (new_dir ''a'' 0x1ED 1))"
    using Open_lookup_order [OF a a', of tree_a ErrNotExist ErrNotExist file_example
        "new_dir ''a'' 0x1ED 1", THEN conjunct2, THEN conjunct2, THEN conjunct1] f3 d3
    by simp
  from x x' a a' f1 d1 o1 f2 o2 f3 d3 o3 show ?thesis
    by simp
qed

text \<open>
  The claim as first stated covers every non-empty path, and so the path \<^verbatim>\<open>.\<close>, which
  \<^verbatim>\<open>Open\<close> answers with the node itself before any lookup. In an empty root neither lookup
  finds \<^verbatim>\<open>.\<close>, and \<^verbatim>\<open>Open\<close> succeeds; in a root with a file named \<^verbatim>\<open>.\<close> the file lookup
  finds the file, and \<^verbatim>\<open>Open\<close> returns the directory.
\<close>

theorem Open_lookup_order_counterexample:
  "''.'' \<noteq> [] \<and>
   getFile root_example ''.'' = Inl ErrNotExist \<and>
   getDir root_example ''.'' = Inl ErrNotExist \<and>
   Open root_example ''.'' = Inr (DirHandle root_example) \<and>
   getFile tree_dot_file ''.'' =
     Inr \<lparr>file_info = \<lparr>name = ''.'', size_fi = 2, modified = 5, isDir = False, mode = 0x1A4\<rparr>,
          content = [1, 2]\<rparr> \<and>
   Open tree_dot_file ''.'' = Inr (DirHandle tree_dot_file)"
  by (simp add: getFile.simps getDir.simps Open_def root_example_def new_dir_def
      tree_dot_file_def separator_def)

subsection \<open>C7: resolution reads the tree and fails with not-found\<close>



subsection \<open>C8: the paths \<^verbatim>\<open>.\<close> and empty in \<^verbatim>\<open>MkdirAll\<close>, \<^verbatim>\<open>WriteFile\<close> and \<^verbatim>\<open>ReadDir\<close>\<close>

text \<open>
  C8 (fails). On an empty root, \<^verbatim>\<open>MkdirAll\<close> of \<^verbatim>\<open>.\<close> succeeds and creates a child
  directory under the key \<^verbatim>\<open>.\<close>; \<^verbatim>\<open>MkdirAll\<close> of the empty path creates one under the empty
  key; \<^verbatim>\<open>WriteFile\<close> to \<^verbatim>\<open>.\<close> and to the empty path create files under these keys; and
  \<^verbatim>\<open>ReadDir\<close> of \<^verbatim>\<open>.\<close> looks for a child directory of that name and fails with
  \<^verbatim>\<open>fs.ErrNotExist\<close>. Only \<^verbatim>\<open>Open\<close> takes both paths for the node itself; \<^verbatim>\<open>ReadDir\<close> and
  \<^verbatim>\<open>getDir\<close> take the empty path so.
\<close>

theorem dot_and_empty_path_create_entries:
  "fst (MkdirAll root_example ''.'' 0x1ED (sconst 1)) = None \<and>
   fmlookup (dirs (fst (snd (MkdirAll root_example ''.'' 0x1ED (sconst 1))))) ''.'' =
     Some (new_dir ''.'' 0x1ED 1) \<and>
   fst (MkdirAll root_example [] 0x1ED (sconst 1)) = None \<and>
   fmlookup (dirs (fst (snd (MkdirAll root_example [] 0x1ED (sconst 1))))) [] =
     Some (new_dir [] 0x1ED 1) \<and>
   fst (WriteFile accept_mode root_example ''.'' [1] 0x1A4 (sconst 1)) = None \<and>
   fmdom (files (fst (snd (WriteFile accept_mode root_example ''.'' [1] 0x1A4 (sconst 1))))) =
     {|''.''|} \<and>
   fst (WriteFile accept_mode root_example [] [1] 0x1A4 (sconst 1)) = None \<and>
   fmdom (files (fst (snd (WriteFile accept_mode root_example [] [1] 0x1A4 (sconst 1))))) =
     {|[]|} \<and>
   ReadDir root_example ''.'' = Inl ErrNotExist"
  by (simp add: MkdirAll.simps WriteFile.simps ReadDir.simps root_example_def new_dir_def
      separator_def)

subsection \<open>C9: the modification times \<^verbatim>\<open>MkdirAll\<close> sets\<close>

text \<open>
  C9. When \<^verbatim>\<open>MkdirAll\<close> succeeds, the metadata of the node it was called on is as before
  but for the modification time, which is the reading of the clock taken after the child
  was looked up: the first reading of the call when the child directory of the first
  segment existed, the second when the call created it (the first went to the child). A
  child the call created has the first segment as its name, the mode given, the size
  \<^verbatim>\<open>0x100\<close>, the directory flag, and a reading of the clock as its modification time: the
  first reading when the path is that one segment, and otherwise the fourth, set when the
  call went on into the child for the rest of the path.
\<close>

theorem MkdirAll_modification_time:
  assumes "MkdirAll f path perm clk = (None, f', clk')"
  shows "info f' = (info f)\<lparr>modified :=
           (if fmlookup (dirs f) (hd (Split path separator)) = None
            then shd (stl clk) else shd clk)\<rparr> \<and>
         (fmlookup (dirs f) (hd (Split path separator)) = None \<longrightarrow>
            (\<exists>child. fmlookup (dirs f') (hd (Split path separator)) = Some child \<and>
               info child =
                 \<lparr>name = hd (Split path separator), size_fi = 0x100,
                  modified = (if length (Split path separator) = 1 then shd clk
                              else shd (stl (stl (stl clk)))),
                  isDir = True, mode = perm\<rparr>))"
proof -
  have nf: "fmlookup (files f) (hd (Split path separator)) = None"
    using assms MkdirAll_exists [of f path _ perm clk]
    by (cases "fmlookup (files f) (hd (Split path separator))") auto
  have a: "info f' = (info f)\<lparr>modified :=
           (if fmlookup (dirs f) (hd (Split path separator)) = None
            then shd (stl clk) else shd clk)\<rparr>"
    using nf assms by (rule MkdirAll_info)
  have b: "\<exists>child. fmlookup (dirs f') (hd (Split path separator)) = Some child \<and>
               info child =
                 \<lparr>name = hd (Split path separator), size_fi = 0x100,
                  modified = (if length (Split path separator) = 1 then shd clk
                              else shd (stl (stl (stl clk)))),
                  isDir = True, mode = perm\<rparr>"
    if new: "fmlookup (dirs f) (hd (Split path separator)) = None"
  proof (cases path separator rule: Split_cases)
    case (1 p)
    with assms nf new show ?thesis
      by (auto simp: MkdirAll_single [of path p] new_dir_def)
  next
    case (2 p q qs)
    obtain child' where
      r: "MkdirAll (new_dir p perm (shd clk)) (Join (q # qs) separator) perm (stl (stl clk)) =
            (None, child', clk')"
      and f': "f' = Dir ((info f)\<lparr>modified := shd (stl clk)\<rparr>) (fmupd p child' (dirs f)) (files f)"
      using assms nf new 2
      by (auto simp: MkdirAll_multi_new [of path p q qs] split: prod.splits)
    have "info child' = (info (new_dir p perm (shd clk)))\<lparr>modified := shd (stl (stl (stl clk)))\<rparr>"
      using MkdirAll_info [OF _ r] by (simp add: new_dir_def)
    with f' 2 show ?thesis
      by (simp add: new_dir_def)
  qed
  from a b show ?thesis by blast
qed

text \<open>
  The witness: \<^verbatim>\<open>a/b\<close> on an empty root, with a clock that reads 1, 2, 3, 4, then 5
  (the child \<^verbatim>\<open>a\<close> is created), and \<^verbatim>\<open>a\<close> on a root that has the directory \<^verbatim>\<open>a\<close>, with a
  clock that reads 7, then 8.
\<close>

theorem MkdirAll_modification_time_witness:
  "MkdirAll root_example ''a/b'' 0x1ED (1 ## 2 ## 3 ## 4 ## sconst 5) = (None, tree_a_b, sconst 5) \<and>
   fmlookup (dirs root_example) (hd (Split ''a/b'' separator)) = None \<and>
   info tree_a_b = (info root_example)\<lparr>modified := 2\<rparr> \<and>
   (\<exists>child. fmlookup (dirs tree_a_b) ''a'' = Some child \<and>
      info child = \<lparr>name = ''a'', size_fi = 0x100, modified = 4, isDir = True, mode = 0x1ED\<rparr>) \<and>
   MkdirAll tree_a ''a'' 0x1ED (7 ## sconst 8) =
     (None, Dir ((info tree_a)\<lparr>modified := 7\<rparr>) (dirs tree_a) (files tree_a), sconst 8) \<and>
   fmlookup (dirs tree_a) (hd (Split ''a'' separator)) \<noteq> None \<and>
   info (Dir ((info tree_a)\<lparr>modified := 7\<rparr>) (dirs tree_a) (files tree_a)) =
     (info tree_a)\<lparr>modified := 7\<rparr>"
proof -
  have h: "MkdirAll root_example ''a/b'' 0x1ED (1 ## 2 ## 3 ## 4 ## sconst 5) =
      (None, tree_a_b, sconst 5)"
    by (simp add: MkdirAll.simps [of _ "''a/b''"] MkdirAll.simps [of _ "''b''"]
        root_example_def new_dir_def tree_a_b_def separator_def)
  have n: "fmlookup (dirs root_example) (hd (Split ''a/b'' separator)) = None"
    by (simp add: separator_def root_example_def new_dir_def)
  have h': "MkdirAll tree_a ''a'' 0x1ED (7 ## sconst 8) =
      (None, Dir ((info tree_a)\<lparr>modified := 7\<rparr>) (dirs tree_a) (files tree_a), sconst 8)"
    by (simp add: MkdirAll.simps tree_a_def new_dir_def separator_def)
  have n': "fmlookup (dirs tree_a) (hd (Split ''a'' separator)) \<noteq> None"
    by (simp add: separator_def tree_a_def)
  from h n h' n' MkdirAll_modification_time [OF h] MkdirAll_modification_time [OF h']
  show ?thesis
    by (simp add: separator_def)
qed

subsection \<open>C10: \<^verbatim>\<open>Open\<close> of a directory path with a trailing separator\<close>

text \<open>
  C10 (amended). For every path without an empty segment that the directory lookup
  resolves to a directory holding no file of empty name, \<^verbatim>\<open>Open\<close> of the path followed by
  a separator succeeds and returns that directory.
\<close>

theorem Open_trailing_separator:
  assumes "[] \<notin> set (Split p separator)"
    and "getDir d p = Inr sub"
    and "fmlookup (files sub) [] = None"
  shows "Open d (p @ [separator]) = Inr (DirHandle sub)"
proof -
  let ?ps = "Split p separator"
  have ne: "p \<noteq> []" using assms(1) by auto
  have l: "last ?ps \<noteq> []"
    using assms(1) Split_not_Nil [of p separator] last_in_set [of ?ps] by metis
  then have st: "strip_trailing ?ps = ?ps"
    by (simp add: strip_trailing_def)
  have ds: "descend d ?ps = Some sub"
    using assms(2) ne st by (simp add: getDir_closed found_def split: option.splits)
  have fl: "filter (\<lambda>k. k \<noteq> []) ?ps = ?ps"
    using assms(1) by (auto intro: filter_True)
  have gf: "getFile d (p @ [separator]) = Inl ErrNotExist"
    using ds fl assms(3) by (simp add: getFile_closed Split_snoc_sep found_def)
  have "strip_trailing (?ps @ [[]]) = ?ps"
    using Split_not_Nil [of p separator] by (simp add: strip_trailing_def)
  then have gd: "getDir d (p @ [separator]) = Inr sub"
    using ds by (simp add: getDir_closed Split_snoc_sep found_def)
  have "p @ [separator] \<noteq> ''.''" and "p @ [separator] \<noteq> []"
    by (simp_all add: separator_def)
  then show ?thesis
    unfolding Open_closed [of d "p @ [separator]"] gf gd by auto
qed

text \<open>The witness: a root with an empty directory \<^verbatim>\<open>a\<close>, opened as \<^verbatim>\<open>a/\<close>.\<close>

theorem Open_trailing_separator_witness:
  "[] \<notin> set (Split ''a'' separator) \<and>
   getDir tree_a ''a'' = Inr (new_dir ''a'' 0x1ED 1) \<and>
   fmlookup (files (new_dir ''a'' 0x1ED 1)) [] = None \<and>
   Open tree_a ''a/'' = Inr (DirHandle (new_dir ''a'' 0x1ED 1))"
proof -
  have h1: "[] \<notin> set (Split ''a'' separator)"
    by (simp add: separator_def)
  have h2: "getDir tree_a ''a'' = Inr (new_dir ''a'' 0x1ED 1)"
    by (simp add: getDir.simps tree_a_def separator_def)
  have h3: "fmlookup (files (new_dir ''a'' 0x1ED 1)) [] = None"
    by (simp add: new_dir_def)
  from h1 h2 h3 Open_trailing_separator [OF h1 h2 h3] show ?thesis
    by (simp add: separator_def)
qed

text \<open>
  The claim as stated fails for the node itself, reached by the empty path: \<^verbatim>\<open>Open\<close> of
  \<^verbatim>\<open>/\<close> looks for a child of empty name and fails. It fails too for a directory \<^verbatim>\<open>a\<close> that
  holds a file of empty name, as \<^verbatim>\<open>WriteFile\<close> to \<^verbatim>\<open>a/\<close> creates it: \<^verbatim>\<open>Open\<close> of \<^verbatim>\<open>a/\<close> tries
  the file lookup first and returns that file.
\<close>

theorem Open_trailing_separator_counterexample:
  "getDir root_example [] = Inr root_example \<and>
   Open root_example ([] @ [separator]) =
     Inl (WrapError ''no such file or directory: /: file does not exist'' ErrNotExist) \<and>
   MkdirAll root_example ''a'' 0x1ED (1 ## 2 ## sconst 3) = (None, tree_a, sconst 3) \<and>
   WriteFile accept_mode tree_a ''a/'' [1] 0x1A4 (sconst 3) = (None, tree_a_empty_name, sconst 3) \<and>
   getDir tree_a_empty_name ''a'' = Inr dir_a_empty_name \<and>
   Open tree_a_empty_name (''a'' @ [separator]) = Inr (FileHandle (openR empty_name_file))"
  by (simp add: Open_def getFile.simps getDir.simps WriteFile.simps MkdirAll.simps
      root_example_def new_dir_def tree_a_def tree_a_empty_name_def dir_a_empty_name_def
      empty_name_file_def separator_def Errorf_no_such_file_def)

end
